theory Spec2Isabelle
  imports Main
begin

section \<open>The \<open>git_gutter\<close> command: enablement gate and action router\<close>

text \<open>
  A shallow embedding of \<^verbatim>\<open>git_gutter.py\<close>: the class \<^verbatim>\<open>GitGutterCommand\<close> with its
  methods \<^verbatim>\<open>__init__\<close>, \<^verbatim>\<open>is_enabled\<close>, \<^verbatim>\<open>run\<close>, \<^verbatim>\<open>_handle_event\<close> and
  \<^verbatim>\<open>_handle_subcommand\<close>, and \<^verbatim>\<open>GitGutterBaseCommand.is_enabled\<close>.

  The collaborators (the git handler, the diff handler, the compare, jump and popup
  modules) are not part of the file. A call into one of them is recorded as an
  \<open>effect\<close> appended to a trace, in program order; the one call whose result the code
  reads, \<^verbatim>\<open>git_handler.work_tree(validate)\<close>, takes its result from the environment.
  Collaborator calls are taken to return normally.
\<close>

subsection \<open>Values\<close>

text \<open>
  The values the editor passes around (command arguments, view settings): the JSON-like
  part of Python's values, with Python's truth test.
\<close>

datatype pyval = PNone | PBool bool | PInt int | PStr string | PList "pyval list"

fun truthy :: "pyval \<Rightarrow> bool" where
  "truthy PNone = False"
| "truthy (PBool b) = b"
| "truthy (PInt i) = (i \<noteq> 0)"
| "truthy (PStr s) = (s \<noteq> [])"
| "truthy (PList xs) = (xs \<noteq> [])"

text \<open>\<^verbatim>\<open>any(p(x) for x in xs)\<close>\<close>

definition any :: "('a \<Rightarrow> bool) \<Rightarrow> 'a list \<Rightarrow> bool" where
  "any p xs = list_ex p xs"

text \<open>A settings bag: \<^verbatim>\<open>get(key)\<close> gives \<^verbatim>\<open>None\<close> for a missing key,
  \<^verbatim>\<open>get(key, default)\<close> the default.\<close>

type_synonym settings = "string \<rightharpoonup> pyval"

definition settings_get :: "settings \<Rightarrow> string \<Rightarrow> pyval" where
  "settings_get st key = (case st key of None \<Rightarrow> PNone | Some v \<Rightarrow> v)"

definition settings_get_default :: "settings \<Rightarrow> string \<Rightarrow> pyval \<Rightarrow> pyval" where
  "settings_get_default st key dflt = (case st key of None \<Rightarrow> dflt | Some v \<Rightarrow> v)"

definition settings_set :: "settings \<Rightarrow> string \<Rightarrow> pyval \<Rightarrow> settings" where
  "settings_set st key v = st(key \<mapsto> v)"

subsection \<open>Collaborators and their calls\<close>

text \<open>\<^verbatim>\<open>GitGutterHandler(self.view)\<close>: the git handler, bound to the view with the given id.\<close>

datatype handler = GitGutterHandler nat

text \<open>
  One constructor per collaborator call the file makes. The calls of
  \<^verbatim>\<open>_handle_subcommand\<close> carry the git handler they are given.
\<close>

datatype effect =
    Work_tree bool                        \<comment> \<open>\<^verbatim>\<open>self.git_handler.work_tree(validate)\<close>\<close>
  | ShowDiff_clear                        \<comment> \<open>\<^verbatim>\<open>self.show_diff_handler.clear()\<close>\<close>
  | Settings_set string pyval             \<comment> \<open>\<^verbatim>\<open>view.settings().set(key, value)\<close>\<close>
  | Invalidate_git_file                   \<comment> \<open>\<^verbatim>\<open>self.git_handler.invalidate_git_file()\<close>\<close>
  | ShowDiff_run                          \<comment> \<open>\<^verbatim>\<open>self.show_diff_handler.run()\<close>\<close>
  | Jump_to_next_change handler           \<comment> \<open>\<^verbatim>\<open>GitGutterJumpToChanges(h).jump_to_next_change()\<close>\<close>
  | Jump_to_prev_change handler           \<comment> \<open>\<^verbatim>\<open>GitGutterJumpToChanges(h).jump_to_prev_change()\<close>\<close>
  | CompareCommit_run handler             \<comment> \<open>\<^verbatim>\<open>GitGutterCompareCommit(h).run()\<close>\<close>
  | CompareFileCommit_run handler         \<comment> \<open>\<^verbatim>\<open>GitGutterCompareFileCommit(h).run()\<close>\<close>
  | CompareBranch_run handler             \<comment> \<open>\<^verbatim>\<open>GitGutterCompareBranch(h).run()\<close>\<close>
  | CompareTag_run handler                \<comment> \<open>\<^verbatim>\<open>GitGutterCompareTag(h).run()\<close>\<close>
  | CompareHead_run handler               \<comment> \<open>\<^verbatim>\<open>GitGutterCompareHead(h).run()\<close>\<close>
  | CompareOrigin_run handler             \<comment> \<open>\<^verbatim>\<open>GitGutterCompareOrigin(h).run()\<close>\<close>
  | ShowCompare_run handler               \<comment> \<open>\<^verbatim>\<open>GitGutterShowCompare(h).run()\<close>\<close>
  | Show_diff_popup pyval handler pyval pyval
      \<comment> \<open>\<^verbatim>\<open>show_diff_popup(point, h, highlight_diff=..., flags=...)\<close>\<close>

datatype error = KeyError string | AssertionError string

subsection \<open>The environment of one call\<close>

text \<open>
  What the code reads from outside the command object during one call:
  \<^verbatim>\<open>settings.git_binary_path\<close> (the missing settings module; any value, tested for truth),
  \<^verbatim>\<open>view.window()\<close> (a window id or \<^verbatim>\<open>None\<close>), \<^verbatim>\<open>view.is_scratch()\<close>,
  \<^verbatim>\<open>view.is_read_only()\<close>, \<^verbatim>\<open>view.encoding()\<close>, and the result of
  \<^verbatim>\<open>git_handler.work_tree(validate)\<close> for either argument (a path or \<^verbatim>\<open>None\<close>; tested
  for truth).
\<close>

record environment =
  git_binary_path :: pyval
  window :: "nat option"
  is_scratch :: bool
  is_read_only :: bool
  encoding :: string
  work_tree :: "bool \<Rightarrow> pyval"

text \<open>
  The keyword arguments of \<^verbatim>\<open>is_enabled\<close> and \<^verbatim>\<open>run\<close>, with \<open>None\<close> for a key that is
  not passed. The action is a string and the event type a list of strings, as every
  caller passes them; the three popup arguments are opaque values.
\<close>

record kwargs =
  action :: "string option"
  event_type :: "string list option"
  point :: "pyval option"
  highlight_diff :: "pyval option"
  flags :: "pyval option"

subsection \<open>The command object\<close>

text \<open>
  The fields of \<^verbatim>\<open>GitGutterCommand\<close> (\<open>enabled\<close> is \<^verbatim>\<open>self._enabled\<close>; the diff handler
  is built from the git handler and has no field of its own here), the settings bag of
  its view, which the command reads and writes, and the trace of collaborator calls.
\<close>

record state =
  git_handler :: handler
  enabled :: bool
  view_settings :: settings
  trace :: "effect list"

definition emit :: "effect \<Rightarrow> state \<Rightarrow> state" where
  "emit e s = s\<lparr>trace := trace s @ [e]\<rparr>"

text \<open>\<^verbatim>\<open>GitGutterCommand.__init__\<close>, on the view with the given id and settings.\<close>

definition init :: "nat \<Rightarrow> settings \<Rightarrow> state" where
  "init view_id st =
     \<lparr>git_handler = GitGutterHandler view_id, enabled = False,
      view_settings = st, trace = []\<rparr>"

text \<open>\<^verbatim>\<open>kwargs.get('event_type', [])\<close>\<close>

definition get_event_type :: "kwargs \<Rightarrow> string list" where
  "get_event_type kw = (case event_type kw of None \<Rightarrow> [] | Some events \<Rightarrow> events)"

text \<open>\<^verbatim>\<open>GitGutterCommand.is_enabled\<close>: the returned boolean and the object afterwards.\<close>

definition is_enabled :: "environment \<Rightarrow> kwargs \<Rightarrow> state \<Rightarrow> bool \<times> state" where
  "is_enabled env kw s =
     (let (valid, s1) =
        (if \<not> truthy (git_binary_path env) then (False, s)
         else if window env = None then (False, s)
         else if is_scratch env \<or> is_read_only env then (False, s)
         else if truthy (settings_get (view_settings s) ''is_widget'') then (False, s)
         else if truthy (settings_get (view_settings s) ''repl'') then (False, s)
         else if encoding env = ''Hexadecimal'' then (False, s)
         else
           let validate =
                 any (\<lambda>event. event \<in> set [''load'', ''activated'', ''post-save''])
                   (get_event_type kw);
               s0 = emit (Work_tree validate) s
           in if \<not> truthy (work_tree env validate) then (False, s0) else (True, s0))
      in if valid \<noteq> enabled s1 then
           let s2 = (if \<not> valid then emit ShowDiff_clear s1 else s1);
               s3 = emit (Settings_set ''git_gutter_enabled'' (PBool valid))
                      (s2\<lparr>view_settings :=
                            settings_set (view_settings s2) ''git_gutter_enabled'' (PBool valid)\<rparr>);
               s4 = s3\<lparr>enabled := valid\<rparr>
           in (valid, s4)
         else (valid, s1))"

text \<open>
  The three methods below can raise. Their result is \<open>Inr s'\<close> for a normal return with
  the object \<open>s'\<close>, and \<open>Inl (e, s')\<close> for the exception \<open>e\<close> raised with the object as
  it was at the raise, so that the calls made before the raise stay visible.
\<close>

text \<open>\<^verbatim>\<open>GitGutterCommand._handle_event\<close>\<close>

definition handle_event :: "kwargs \<Rightarrow> state \<Rightarrow> error \<times> state + state" where
  "handle_event kw s =
     (let events = get_event_type kw;
          s1 = (if any (\<lambda>event. event \<notin> set [''load'', ''modified'']) events
                then emit Invalidate_git_file s else s)
      in Inr (emit ShowDiff_run s1))"

text \<open>\<^verbatim>\<open>kwargs[key]\<close>: a missing key raises \<^verbatim>\<open>KeyError\<close>.\<close>

definition subscript :: "'a option \<Rightarrow> string \<Rightarrow> error + 'a" where
  "subscript field key = (case field of None \<Rightarrow> Inl (KeyError key) | Some v \<Rightarrow> Inr v)"

text \<open>\<^verbatim>\<open>GitGutterCommand._handle_subcommand\<close>\<close>

definition handle_subcommand :: "kwargs \<Rightarrow> state \<Rightarrow> error \<times> state + state" where
  "handle_subcommand kw s =
     (case subscript (action kw) ''action'' of
        Inl e \<Rightarrow> Inl (e, s)
      | Inr act \<Rightarrow>
         if act = ''jump_to_next_change'' then
           Inr (emit (Jump_to_next_change (git_handler s)) s)
         else if act = ''jump_to_prev_change'' then
           Inr (emit (Jump_to_prev_change (git_handler s)) s)
         else if act = ''compare_against_commit'' then
           Inr (emit (CompareCommit_run (git_handler s)) s)
         else if act = ''compare_against_file_commit'' then
           Inr (emit (CompareFileCommit_run (git_handler s)) s)
         else if act = ''compare_against_branch'' then
           Inr (emit (CompareBranch_run (git_handler s)) s)
         else if act = ''compare_against_tag'' then
           Inr (emit (CompareTag_run (git_handler s)) s)
         else if act = ''compare_against_head'' then
           Inr (emit (CompareHead_run (git_handler s)) s)
         else if act = ''compare_against_origin'' then
           Inr (emit (CompareOrigin_run (git_handler s)) s)
         else if act = ''show_compare'' then
           Inr (emit (ShowCompare_run (git_handler s)) s)
         else if act = ''show_diff_popup'' then
           (case subscript (point kw) ''point'' of
              Inl e \<Rightarrow> Inl (e, s)
            | Inr pt \<Rightarrow>
               (case subscript (highlight_diff kw) ''highlight_diff'' of
                  Inl e \<Rightarrow> Inl (e, s)
                | Inr hl \<Rightarrow>
                   (case subscript (flags kw) ''flags'' of
                      Inl e \<Rightarrow> Inl (e, s)
                    | Inr fl \<Rightarrow>
                       Inr (emit (Show_diff_popup pt (git_handler s) hl fl) s))))
         else Inl (AssertionError (''Unhandled sub command '' @ [CHR 0x22] @ act @ [CHR 0x22]), s))"

text \<open>\<^verbatim>\<open>GitGutterCommand.run\<close> (the \<^verbatim>\<open>edit\<close> argument is not used).\<close>

definition run :: "kwargs \<Rightarrow> state \<Rightarrow> error \<times> state + state" where
  "run kw s =
     (if action kw \<noteq> None then handle_subcommand kw s else handle_event kw s)"

text \<open>\<^verbatim>\<open>GitGutterBaseCommand.is_enabled\<close>: the mirrored setting, read with default
  \<^verbatim>\<open>False\<close>.\<close>

definition base_is_enabled :: "settings \<Rightarrow> pyval" where
  "base_is_enabled st = settings_get_default st ''git_gutter_enabled'' (PBool False)"

subsection \<open>One invocation of the command\<close>

text \<open>
  Modelled from the spec: the host's command protocol, by which every invocation of the
  \<^verbatim>\<open>git_gutter\<close> command reaches the object (\<^verbatim>\<open>view.run_command\<close> in the callers at the
  end of the file). The framework that implements it is not among the source files. The
  spec has it that enablement is re-evaluated through the gate on every invocation,
  before any dispatch, and that ineligibility silently disables the dispatch: the host
  calls \<^verbatim>\<open>is_enabled\<close> with the arguments of the invocation and calls \<^verbatim>\<open>run\<close> with the
  same arguments only if the answer is true.
\<close>

definition invoke :: "environment \<Rightarrow> kwargs \<Rightarrow> state \<Rightarrow> error \<times> state + state" where
  "invoke env kw s =
     (let (valid, s1) = is_enabled env kw s
      in if valid then run kw s1 else Inr s1)"

subsection \<open>Sequences of gate evaluations\<close>

text \<open>
  The host calls \<^verbatim>\<open>is_enabled\<close> again and again on the same command object, each time
  with the environment and the arguments of the moment. \<open>evaluations\<close> runs such a
  sequence and gives the returned booleans, in order, and the object after the last call.
\<close>

fun evaluations :: "state \<Rightarrow> (environment \<times> kwargs) list \<Rightarrow> bool list \<times> state" where
  "evaluations s [] = ([], s)"
| "evaluations s ((env, kw) # rest) =
     (let (valid, s1) = is_enabled env kw s;
          (valids, s2) = evaluations s1 rest
      in (valid # valids, s2))"

text \<open>The calls made between an object \<open>s\<close> and a later object \<open>s'\<close>.\<close>

definition added :: "state \<Rightarrow> state \<Rightarrow> effect list" where
  "added s s' = drop (length (trace s)) (trace s')"

text \<open>The calls that \<^verbatim>\<open>is_enabled\<close> makes, as opposed to those of the handlers.\<close>

fun gate_effect :: "effect \<Rightarrow> bool" where
  "gate_effect (Work_tree v) = True"
| "gate_effect ShowDiff_clear = True"
| "gate_effect (Settings_set key v) = True"
| "gate_effect e = False"

subsection \<open>The gate's decision\<close>

text \<open>
  Names for the parts of \<^verbatim>\<open>is_enabled\<close>, used to state what it does: the six checks
  that come before the work tree is asked (\<open>reaches_work_tree\<close>), the argument
  \<^verbatim>\<open>validate\<close> computed from the event type (\<open>validate_of\<close>), the call made to the
  git handler (\<open>query_of\<close>) and the value of \<^verbatim>\<open>valid\<close> before the change of state is
  handled (\<open>valid_of\<close>). Lemmas \<open>is_enabled_unchanged\<close> and \<open>is_enabled_changed\<close> below
  relate them to \<open>is_enabled\<close>.
\<close>

definition reaches_work_tree :: "environment \<Rightarrow> state \<Rightarrow> bool" where
  "reaches_work_tree env s \<longleftrightarrow>
     truthy (git_binary_path env) \<and> window env \<noteq> None \<and> \<not> is_scratch env \<and>
     \<not> is_read_only env \<and> \<not> truthy (settings_get (view_settings s) ''is_widget'') \<and>
     \<not> truthy (settings_get (view_settings s) ''repl'') \<and> encoding env \<noteq> ''Hexadecimal''"

definition validate_of :: "kwargs \<Rightarrow> bool" where
  "validate_of kw =
     any (\<lambda>event. event \<in> set [''load'', ''activated'', ''post-save'']) (get_event_type kw)"

definition query_of :: "environment \<Rightarrow> kwargs \<Rightarrow> state \<Rightarrow> effect list" where
  "query_of env kw s = (if reaches_work_tree env s then [Work_tree (validate_of kw)] else [])"

definition valid_of :: "environment \<Rightarrow> kwargs \<Rightarrow> state \<Rightarrow> bool" where
  "valid_of env kw s \<longleftrightarrow> reaches_work_tree env s \<and> truthy (work_tree env (validate_of kw))"

subsection \<open>Sample inputs\<close>

text \<open>A file inside a repository, a file outside of any, and a scratch buffer.\<close>

definition in_repository :: "bool \<Rightarrow> pyval" where
  "in_repository validate = PStr ''/home/user/project''"

definition no_repository :: "bool \<Rightarrow> pyval" where
  "no_repository validate = PNone"

definition tracked_file :: environment where
  "tracked_file =
     \<lparr>git_binary_path = PStr ''git'', window = Some 1, is_scratch = False,
      is_read_only = False, encoding = ''UTF-8'', work_tree = in_repository\<rparr>"

definition untracked_file :: environment where
  "untracked_file = tracked_file\<lparr>work_tree := no_repository\<rparr>"

definition scratch_buffer :: environment where
  "scratch_buffer = tracked_file\<lparr>is_scratch := True\<rparr>"

definition read_only_file :: environment where
  "read_only_file = tracked_file\<lparr>is_read_only := True\<rparr>"

text \<open>The arguments of an event notification and of an action request.\<close>

definition on_events :: "string list \<Rightarrow> kwargs" where
  "on_events events =
     \<lparr>action = None, event_type = Some events, point = None, highlight_diff = None,
      flags = None\<rparr>"

definition on_action :: "string \<Rightarrow> kwargs" where
  "on_action act =
     \<lparr>action = Some act, event_type = None, point = None, highlight_diff = None,
      flags = None\<rparr>"

text \<open>No settings at all, and the settings a view keeps from an earlier command object
  that had found it eligible.\<close>

definition no_settings :: settings where
  "no_settings = map_of []"

definition stale_settings :: settings where
  "stale_settings = map_of [(''git_gutter_enabled'', PBool True)]"

text \<open>A command object that found its view eligible at the last evaluation.\<close>

definition eligible_before :: state where
  "eligible_before = (init 1 stale_settings)\<lparr>enabled := True\<rparr>"

text \<open>A popup request with all of its arguments.\<close>

definition popup_request :: kwargs where
  "popup_request = (on_action ''show_diff_popup'')
     \<lparr>point := Some (PInt 120), highlight_diff := Some (PBool True), flags := Some (PInt 0)\<rparr>"

section \<open>Properties\<close>

subsection \<open>What one gate evaluation does\<close>

lemmas sample_defs = tracked_file_def untracked_file_def scratch_buffer_def read_only_file_def
  in_repository_def no_repository_def on_events_def on_action_def no_settings_def
  stale_settings_def init_def eligible_before_def

lemmas model_defs = is_enabled_def emit_def Let_def any_def get_event_type_def
  settings_get_def settings_set_def settings_get_default_def base_is_enabled_def added_def
  run_def handle_event_def handle_subcommand_def subscript_def

text \<open>
  When the computed value equals the cached one, only the trace grows, by the call to the
  git handler if the evaluation got that far.
\<close>

lemma is_enabled_unchanged:
  "valid_of env kw s = enabled s \<Longrightarrow>
   is_enabled env kw s = (enabled s, s\<lparr>trace := trace s @ query_of env kw s\<rparr>)"
  by (auto simp: is_enabled_def emit_def Let_def reaches_work_tree_def validate_of_def
      query_of_def valid_of_def)

text \<open>
  When it differs, the cache and the mirrored setting take the new value, after
  \<^verbatim>\<open>clear()\<close> if the old value was true.
\<close>

lemma is_enabled_changed:
  "valid_of env kw s \<noteq> enabled s \<Longrightarrow>
   is_enabled env kw s =
     (\<not> enabled s,
      s\<lparr>enabled := \<not> enabled s,
        view_settings :=
          settings_set (view_settings s) ''git_gutter_enabled'' (PBool (\<not> enabled s)),
        trace := trace s @ query_of env kw s @ (if enabled s then [ShowDiff_clear] else [])
                 @ [Settings_set ''git_gutter_enabled'' (PBool (\<not> enabled s))]\<rparr>)"
  by (auto simp: is_enabled_def emit_def Let_def reaches_work_tree_def validate_of_def
      query_of_def valid_of_def)

lemma fst_is_enabled: "fst (is_enabled env kw s) = valid_of env kw s"
  by (cases "valid_of env kw s = enabled s") (auto simp: is_enabled_unchanged is_enabled_changed)

lemma added_append [simp]: "added s (s\<lparr>trace := trace s @ new\<rparr>) = new"
  by (simp add: added_def)

lemma added_append_more [simp]:
  "added s (s\<lparr>enabled := b, view_settings := st, trace := trace s @ new\<rparr>) = new"
  by (simp add: added_def)

lemma query_of_cases: "query_of env kw s = [] \<or> query_of env kw s = [Work_tree (validate_of kw)]"
  by (simp add: query_of_def)

subsection \<open>Transitions of the gate\<close>

text \<open>
  Claim C1. Whenever a gate evaluation computes false while the cached value is true,
  \<^verbatim>\<open>clear()\<close> is called exactly once, and before the mirrored setting is written: the
  calls of the evaluation are the work-tree query, if any, then \<^verbatim>\<open>clear()\<close>, then the
  write of false. \<^verbatim>\<open>clear()\<close> is not called when the value goes from false to true, nor
  when the computed value equals the cached one.
\<close>

theorem clear_on_disable_only:
  assumes "is_enabled env kw s = (valid, s')"
  shows "trace s' = trace s @ added s s' \<and>
     (enabled s \<and> \<not> valid \<longrightarrow>
        count_list (added s s') ShowDiff_clear = 1 \<and>
        (\<exists>query. added s s' =
            query @ [ShowDiff_clear, Settings_set ''git_gutter_enabled'' (PBool False)] \<and>
            (query = [] \<or> (\<exists>validate. query = [Work_tree validate])))) \<and>
     (\<not> enabled s \<and> valid \<longrightarrow> ShowDiff_clear \<notin> set (added s s')) \<and>
     (valid = enabled s \<longrightarrow> ShowDiff_clear \<notin> set (added s s'))"
proof (cases "valid_of env kw s = enabled s")
  case True
  from is_enabled_unchanged [OF True] assms
  have "valid = enabled s" and "s' = s\<lparr>trace := trace s @ query_of env kw s\<rparr>"
    by simp_all
  then show ?thesis
    using query_of_cases [of env kw s] by auto
next
  case False
  from is_enabled_changed [OF False] assms
  have v: "valid = (\<not> enabled s)"
    and s': "s' = s\<lparr>enabled := \<not> enabled s,
        view_settings :=
          settings_set (view_settings s) ''git_gutter_enabled'' (PBool (\<not> enabled s)),
        trace := trace s @ query_of env kw s @ (if enabled s then [ShowDiff_clear] else [])
                 @ [Settings_set ''git_gutter_enabled'' (PBool (\<not> enabled s))]\<rparr>"
    by simp_all
  show ?thesis
    unfolding v s' using query_of_cases [of env kw s] by auto
qed

theorem clear_on_disable_only_witness:
  "enabled eligible_before \<and>
   \<not> fst (is_enabled scratch_buffer (on_events [''modified'']) eligible_before) \<and>
   count_list
     (added eligible_before
        (snd (is_enabled scratch_buffer (on_events [''modified'']) eligible_before)))
     ShowDiff_clear = 1"
  using clear_on_disable_only [of scratch_buffer "on_events [''modified'']" eligible_before
      "fst (is_enabled scratch_buffer (on_events [''modified'']) eligible_before)"
      "snd (is_enabled scratch_buffer (on_events [''modified'']) eligible_before)"]
  by (simp add: sample_defs model_defs)

text \<open>
  Claim C2. If the value computed by a gate evaluation equals the cached value, the
  evaluation calls no \<^verbatim>\<open>clear()\<close>, writes no setting and leaves the cache as it is:
  the object is unchanged, and the only call made is the work-tree query by which the
  value is computed (when the six checks before it pass). Hence two evaluations in the
  same environment with the same arguments return the same boolean, and the second one
  is such an evaluation.
\<close>

theorem steady_state_no_side_effect:
  "(is_enabled env kw s = (valid, s') \<and> valid = enabled s \<longrightarrow>
      enabled s' = enabled s \<and> view_settings s' = view_settings s \<and>
      git_handler s' = git_handler s \<and> trace s' = trace s @ added s s' \<and>
      (added s s' = [] \<or> (\<exists>validate. added s s' = [Work_tree validate]))) \<and>
   (is_enabled env kw s = (valid_one, s_one) \<and> is_enabled env kw s_one = (valid_two, s_two) \<longrightarrow>
      valid_two = valid_one \<and>
      enabled s_two = enabled s_one \<and> view_settings s_two = view_settings s_one \<and>
      git_handler s_two = git_handler s_one \<and> trace s_two = trace s_one @ added s_one s_two \<and>
      (added s_one s_two = [] \<or> (\<exists>validate. added s_one s_two = [Work_tree validate])))"
proof -
  have steady: "enabled t' = enabled t \<and> view_settings t' = view_settings t \<and>
      git_handler t' = git_handler t \<and> trace t' = trace t @ added t t' \<and>
      (added t t' = [] \<or> (\<exists>validate. added t t' = [Work_tree validate]))"
    if "is_enabled env kw t = (v, t')" and "v = enabled t" for t t' v
  proof -
    from that fst_is_enabled [of env kw t] have "valid_of env kw t = enabled t"
      by simp
    from is_enabled_unchanged [OF this] that
    have "t' = t\<lparr>trace := trace t @ query_of env kw t\<rparr>"
      by simp
    then show ?thesis
      using query_of_cases [of env kw t] by auto
  qed
  have twice: "valid_two = valid_one \<and> valid_two = enabled s_one"
    if one: "is_enabled env kw s = (valid_one, s_one)" and two: "is_enabled env kw s_one = (valid_two, s_two)"
  proof -
    have settings: "settings_get (view_settings s_one) key = settings_get (view_settings s) key"
      if "key \<noteq> ''git_gutter_enabled''" for key
      using one that
      by (cases "valid_of env kw s = enabled s")
        (auto simp: is_enabled_unchanged is_enabled_changed settings_get_def settings_set_def)
    have "reaches_work_tree env s_one = reaches_work_tree env s"
      by (simp add: reaches_work_tree_def settings)
    then have same: "valid_of env kw s_one = valid_of env kw s"
      by (simp add: valid_of_def)
    have "enabled s_one = valid_of env kw s"
      using one
      by (cases "valid_of env kw s = enabled s")
        (auto simp: is_enabled_unchanged is_enabled_changed)
    moreover have "valid_one = valid_of env kw s"
      using one fst_is_enabled [of env kw s] by simp
    moreover have "valid_two = valid_of env kw s_one"
      using two fst_is_enabled [of env kw s_one] by simp
    ultimately show ?thesis
      using same by simp
  qed
  show ?thesis
    using steady [of s valid s'] steady [of s_one valid_two s_two] twice by blast
qed

theorem steady_state_no_side_effect_witness:
  "snd (is_enabled tracked_file (on_events [''modified''])
          (snd (is_enabled tracked_file (on_events [''modified'']) (init 1 no_settings)))) =
   (snd (is_enabled tracked_file (on_events [''modified'']) (init 1 no_settings)))
     \<lparr>trace := [Work_tree False, Settings_set ''git_gutter_enabled'' (PBool True),
                Work_tree False]\<rparr> \<and>
   fst (is_enabled tracked_file (on_events [''modified''])
          (snd (is_enabled tracked_file (on_events [''modified'']) (init 1 no_settings)))) \<and>
   fst (is_enabled tracked_file (on_events [''modified'']) (init 1 no_settings))"
  using steady_state_no_side_effect [where env = tracked_file
      and kw = "on_events [''modified'']"
      and s = "init 1 no_settings"
      and s_one = "snd (is_enabled tracked_file (on_events [''modified'']) (init 1 no_settings))"
      and valid_one = "fst (is_enabled tracked_file (on_events [''modified'']) (init 1 no_settings))"
      and s_two = "snd (is_enabled tracked_file (on_events [''modified''])
          (snd (is_enabled tracked_file (on_events [''modified'']) (init 1 no_settings))))"
      and valid_two = "fst (is_enabled tracked_file (on_events [''modified''])
          (snd (is_enabled tracked_file (on_events [''modified'']) (init 1 no_settings))))"]
  by (simp add: sample_defs model_defs)

subsection \<open>Event notifications\<close>

text \<open>
  Claim C3. A call of \<^verbatim>\<open>run\<close> without an action invalidates the cached git file if and
  only if some event of the event type is neither \<^verbatim>\<open>load\<close> nor \<^verbatim>\<open>modified\<close>, does so
  before the refresh, and then calls the refresh \<^verbatim>\<open>show_diff_handler.run()\<close> exactly once
  in either case. In particular the event type \<^verbatim>\<open>['modified']\<close> never invalidates, and an
  event type that contains \<^verbatim>\<open>post-save\<close> always does, first.
\<close>

theorem event_dispatch:
  assumes "action kw = None"
  shows "run kw s =
       Inr (s\<lparr>trace := trace s @
                 (if \<exists>event \<in> set (get_event_type kw). event \<notin> {''load'', ''modified''}
                  then [Invalidate_git_file] else []) @ [ShowDiff_run]\<rparr>) \<and>
     (event_type kw = Some [''modified''] \<longrightarrow>
        run kw s = Inr (s\<lparr>trace := trace s @ [ShowDiff_run]\<rparr>)) \<and>
     (''post-save'' \<in> set (get_event_type kw) \<longrightarrow>
        run kw s = Inr (s\<lparr>trace := trace s @ [Invalidate_git_file, ShowDiff_run]\<rparr>))"
proof -
  have invalidates:
    "any (\<lambda>event. event \<notin> set [''load'', ''modified'']) (get_event_type kw) \<longleftrightarrow>
     (\<exists>event \<in> set (get_event_type kw). event \<notin> {''load'', ''modified''})"
    by (simp add: any_def list_ex_iff)
  have general: "run kw s =
       Inr (s\<lparr>trace := trace s @
                 (if \<exists>event \<in> set (get_event_type kw). event \<notin> {''load'', ''modified''}
                  then [Invalidate_git_file] else []) @ [ShowDiff_run]\<rparr>)"
    using assms invalidates
    by (simp add: run_def handle_event_def emit_def Let_def)
  moreover have "run kw s = Inr (s\<lparr>trace := trace s @ [ShowDiff_run]\<rparr>)"
    if "event_type kw = Some [''modified'']"
    using general that by (simp add: get_event_type_def)
  moreover have "run kw s = Inr (s\<lparr>trace := trace s @ [Invalidate_git_file, ShowDiff_run]\<rparr>)"
    if "''post-save'' \<in> set (get_event_type kw)"
  proof -
    from that have "\<exists>event \<in> set (get_event_type kw). event \<notin> {''load'', ''modified''}"
      by (intro bexI [of _ "''post-save''"]) simp_all
    with general show ?thesis by simp
  qed
  ultimately show ?thesis by blast
qed

theorem event_dispatch_witness:
  "run (on_events [''modified'', ''post-save'']) (init 1 no_settings) =
     Inr ((init 1 no_settings)\<lparr>trace := [Invalidate_git_file, ShowDiff_run]\<rparr>) \<and>
   run (on_events [''modified'']) (init 1 no_settings) =
     Inr ((init 1 no_settings)\<lparr>trace := [ShowDiff_run]\<rparr>)"
  using event_dispatch [of "on_events [''modified'', ''post-save'']" "init 1 no_settings"]
    event_dispatch [of "on_events [''modified'']" "init 1 no_settings"]
  by (simp add: sample_defs get_event_type_def)

subsection \<open>The work-tree step\<close>

text \<open>
  Claim C5. In a gate evaluation that passes the six checks (git binary set, window
  attached, not scratch, not read-only, no widget, no REPL, encoding not hexadecimal) the
  git handler's \<^verbatim>\<open>work_tree(validate)\<close> is called, once and as the first call, with
  \<^verbatim>\<open>validate\<close> true if and only if the event type contains \<^verbatim>\<open>load\<close>, \<^verbatim>\<open>activated\<close> or
  \<^verbatim>\<open>post-save\<close>; the evaluation returns true exactly when the result of that call is
  true, so the view is ineligible whenever the resolution fails.
\<close>

theorem work_tree_validation:
  assumes "truthy (git_binary_path env)" and "window env \<noteq> None"
    and "\<not> is_scratch env" and "\<not> is_read_only env"
    and "\<not> truthy (settings_get (view_settings s) ''is_widget'')"
    and "\<not> truthy (settings_get (view_settings s) ''repl'')"
    and "encoding env \<noteq> ''Hexadecimal''"
    and "is_enabled env kw s = (valid, s')"
    and "validate \<longleftrightarrow>
         (\<exists>event \<in> set (get_event_type kw). event \<in> {''load'', ''activated'', ''post-save''})"
  shows "trace s' = trace s @ added s s' \<and>
     (\<exists>rest. added s s' = Work_tree validate # rest \<and> (\<forall>v. Work_tree v \<notin> set rest)) \<and>
     (valid \<longleftrightarrow> truthy (work_tree env validate))"
proof -
  have reach: "reaches_work_tree env s"
    using assms(1-7) by (simp add: reaches_work_tree_def)
  have validate: "validate_of kw = validate"
    using assms(9) by (simp add: validate_of_def any_def list_ex_iff)
  have query: "query_of env kw s = [Work_tree validate]"
    using reach validate by (simp add: query_of_def)
  have valid: "valid = valid_of env kw s"
    using assms(8) fst_is_enabled [of env kw s] by simp
  then have "valid \<longleftrightarrow> truthy (work_tree env validate)"
    using reach validate by (simp add: valid_of_def)
  moreover have "trace s' = trace s @ added s s' \<and>
     (\<exists>rest. added s s' = Work_tree validate # rest \<and> (\<forall>v. Work_tree v \<notin> set rest))"
  proof (cases "valid_of env kw s = enabled s")
    case True
    from is_enabled_unchanged [OF True] assms(8) query show ?thesis by auto
  next
    case False
    from is_enabled_changed [OF False] assms(8) query show ?thesis by auto
  qed
  ultimately show ?thesis by blast
qed

theorem work_tree_validation_witness:
  "added (init 1 no_settings)
     (snd (is_enabled untracked_file (on_events [''load'']) (init 1 no_settings))) =
     [Work_tree True] \<and>
   \<not> fst (is_enabled untracked_file (on_events [''load'']) (init 1 no_settings))"
  using work_tree_validation [of untracked_file "init 1 no_settings" "on_events [''load'']"
      "fst (is_enabled untracked_file (on_events [''load'']) (init 1 no_settings))"
      "snd (is_enabled untracked_file (on_events [''load'']) (init 1 no_settings))" True]
  by (simp add: sample_defs model_defs)

subsection \<open>Action requests\<close>

text \<open>
  Claim C9. A \<^verbatim>\<open>show_diff_popup\<close> request that carries \<^verbatim>\<open>point\<close>, \<^verbatim>\<open>highlight_diff\<close> and
  \<^verbatim>\<open>flags\<close> calls the popup exactly once, with those three values as they are and the
  command's git handler. If one of the three keys is missing, \<^verbatim>\<open>KeyError\<close> is raised for
  the first missing one, and no call has been made.
\<close>

theorem popup_dispatch:
  assumes "action kw = Some ''show_diff_popup''"
  shows "(point kw = Some pt \<and> highlight_diff kw = Some hl \<and> flags kw = Some fl \<longrightarrow>
        run kw s = Inr (s\<lparr>trace := trace s @ [Show_diff_popup pt (git_handler s) hl fl]\<rparr>)) \<and>
     (point kw = None \<or> highlight_diff kw = None \<or> flags kw = None \<longrightarrow>
        run kw s =
          Inl (KeyError (if point kw = None then ''point''
                         else if highlight_diff kw = None then ''highlight_diff''
                         else ''flags''), s))"
  using assms
  by (auto simp: run_def handle_subcommand_def subscript_def emit_def split: option.splits)

theorem popup_dispatch_witness:
  "run popup_request (init 1 no_settings) =
     Inr ((init 1 no_settings)
       \<lparr>trace := [Show_diff_popup (PInt 120) (GitGutterHandler 1) (PBool True) (PInt 0)]\<rparr>) \<and>
   run (popup_request\<lparr>highlight_diff := None\<rparr>) (init 1 no_settings) =
     Inl (KeyError ''highlight_diff'', init 1 no_settings)"
  using popup_dispatch [of popup_request "PInt 120" "PBool True" "PInt 0" "init 1 no_settings"]
    popup_dispatch [of "popup_request\<lparr>highlight_diff := None\<rparr>" "PInt 120" "PBool True"
      "PInt 0" "init 1 no_settings"]
  by (simp add: popup_request_def sample_defs)

text \<open>
  Claim C4, as stated, says that each of the ten action identifiers calls its handler
  exactly once in every action request. A \<^verbatim>\<open>show_diff_popup\<close> request without its
  arguments calls no handler: it raises \<^verbatim>\<open>KeyError\<close>.
\<close>

theorem popup_without_arguments:
  "run (on_action ''show_diff_popup'') (init 1 no_settings) =
     Inl (KeyError ''point'', init 1 no_settings)"
  by (simp add: sample_defs model_defs)

text \<open>
  Claim C4, amended. In an action request, each of the nine identifiers without
  arguments calls its own handler exactly once and nothing else; \<^verbatim>\<open>show_diff_popup\<close>
  calls the popup exactly once and nothing else when the request carries \<^verbatim>\<open>point\<close>,
  \<^verbatim>\<open>highlight_diff\<close> and \<^verbatim>\<open>flags\<close>; every other identifier fails the assertion, with
  no call made.
\<close>

theorem action_dispatch:
  assumes "action kw = Some act"
  shows "(act = ''jump_to_next_change'' \<longrightarrow>
        run kw s = Inr (s\<lparr>trace := trace s @ [Jump_to_next_change (git_handler s)]\<rparr>)) \<and>
     (act = ''jump_to_prev_change'' \<longrightarrow>
        run kw s = Inr (s\<lparr>trace := trace s @ [Jump_to_prev_change (git_handler s)]\<rparr>)) \<and>
     (act = ''compare_against_commit'' \<longrightarrow>
        run kw s = Inr (s\<lparr>trace := trace s @ [CompareCommit_run (git_handler s)]\<rparr>)) \<and>
     (act = ''compare_against_file_commit'' \<longrightarrow>
        run kw s = Inr (s\<lparr>trace := trace s @ [CompareFileCommit_run (git_handler s)]\<rparr>)) \<and>
     (act = ''compare_against_branch'' \<longrightarrow>
        run kw s = Inr (s\<lparr>trace := trace s @ [CompareBranch_run (git_handler s)]\<rparr>)) \<and>
     (act = ''compare_against_tag'' \<longrightarrow>
        run kw s = Inr (s\<lparr>trace := trace s @ [CompareTag_run (git_handler s)]\<rparr>)) \<and>
     (act = ''compare_against_head'' \<longrightarrow>
        run kw s = Inr (s\<lparr>trace := trace s @ [CompareHead_run (git_handler s)]\<rparr>)) \<and>
     (act = ''compare_against_origin'' \<longrightarrow>
        run kw s = Inr (s\<lparr>trace := trace s @ [CompareOrigin_run (git_handler s)]\<rparr>)) \<and>
     (act = ''show_compare'' \<longrightarrow>
        run kw s = Inr (s\<lparr>trace := trace s @ [ShowCompare_run (git_handler s)]\<rparr>)) \<and>
     (act = ''show_diff_popup'' \<and>
      point kw = Some pt \<and> highlight_diff kw = Some hl \<and> flags kw = Some fl \<longrightarrow>
        run kw s = Inr (s\<lparr>trace := trace s @ [Show_diff_popup pt (git_handler s) hl fl]\<rparr>)) \<and>
     (act \<notin> {''jump_to_next_change'', ''jump_to_prev_change'', ''compare_against_commit'',
              ''compare_against_file_commit'', ''compare_against_branch'',
              ''compare_against_tag'', ''compare_against_head'', ''compare_against_origin'',
              ''show_compare'', ''show_diff_popup''} \<longrightarrow>
        run kw s =
          Inl (AssertionError (''Unhandled sub command '' @ [CHR 0x22] @ act @ [CHR 0x22]), s))"
  using assms
  by (simp add: run_def handle_subcommand_def subscript_def emit_def)

theorem action_dispatch_witness:
  "run (on_action ''compare_against_head'') (init 1 no_settings) =
     Inr ((init 1 no_settings)\<lparr>trace := [CompareHead_run (GitGutterHandler 1)]\<rparr>) \<and>
   run popup_request (init 1 no_settings) =
     Inr ((init 1 no_settings)
       \<lparr>trace := [Show_diff_popup (PInt 120) (GitGutterHandler 1) (PBool True) (PInt 0)]\<rparr>) \<and>
   run (on_action ''blame'') (init 1 no_settings) =
     Inl (AssertionError (''Unhandled sub command '' @ [CHR 0x22] @ ''blame'' @ [CHR 0x22]),
          init 1 no_settings)"
  using action_dispatch [of "on_action ''compare_against_head''" "''compare_against_head''"
      "init 1 no_settings" "PInt 120" "PBool True" "PInt 0"]
    action_dispatch [of popup_request "''show_diff_popup''"
      "init 1 no_settings" "PInt 120" "PBool True" "PInt 0"]
    action_dispatch [of "on_action ''blame''" "''blame''"
      "init 1 no_settings" "PInt 120" "PBool True" "PInt 0"]
  by (simp add: popup_request_def sample_defs)

subsection \<open>Scratch views\<close>

text \<open>
  Claim C6, as stated, says that the gate sets the mirrored flag to false on every
  scratch view. On a new command object whose view still holds a true flag, the
  evaluation of a scratch view returns false and changes nothing: the flag is not
  written and still reads true.
\<close>

theorem scratch_stale_flag:
  "fst (is_enabled scratch_buffer (on_events [''load'']) (init 1 stale_settings)) = False \<and>
   snd (is_enabled scratch_buffer (on_events [''load'']) (init 1 stale_settings)) =
     init 1 stale_settings \<and>
   trace (snd (is_enabled scratch_buffer (on_events [''load'']) (init 1 stale_settings))) = [] \<and>
   base_is_enabled
     (view_settings (snd (is_enabled scratch_buffer (on_events [''load''])
        (init 1 stale_settings)))) = PBool True"
  by (simp add: sample_defs model_defs)

text \<open>
  Claim C6, amended. On a scratch view the gate returns false and never asks for the
  work tree. If the cached value was true, it calls \<^verbatim>\<open>clear()\<close>, writes false to the
  mirrored flag and to the cache; if the cached value was false, it changes nothing.
  So the mirrored flag reads false afterwards whenever it agreed with the cache before.
\<close>

theorem scratch_ineligible:
  assumes "is_scratch env" and "is_enabled env kw s = (valid, s')"
  shows "\<not> valid \<and> trace s' = trace s @ added s s' \<and>
     (\<forall>validate. Work_tree validate \<notin> set (added s s')) \<and>
     (enabled s \<longrightarrow>
        added s s' = [ShowDiff_clear, Settings_set ''git_gutter_enabled'' (PBool False)] \<and>
        view_settings s' =
          settings_set (view_settings s) ''git_gutter_enabled'' (PBool False) \<and>
        \<not> enabled s' \<and> base_is_enabled (view_settings s') = PBool False) \<and>
     (\<not> enabled s \<longrightarrow> s' = s) \<and>
     (base_is_enabled (view_settings s) = PBool (enabled s) \<longrightarrow>
        base_is_enabled (view_settings s') = PBool False)"
proof -
  have no_query: "query_of env kw s = []" and invalid: "\<not> valid_of env kw s"
    using assms(1) by (simp_all add: query_of_def valid_of_def reaches_work_tree_def)
  show ?thesis
  proof (cases "enabled s")
    case True
    with invalid have "valid_of env kw s \<noteq> enabled s" by simp
    from is_enabled_changed [OF this] assms(2) True no_query show ?thesis
      by (auto simp: base_is_enabled_def settings_get_default_def settings_set_def)
  next
    case False
    with invalid have "valid_of env kw s = enabled s" by simp
    from is_enabled_unchanged [OF this] assms(2) False no_query show ?thesis
      by (auto simp: added_def)
  qed
qed

theorem scratch_ineligible_witness:
  "\<not> fst (is_enabled scratch_buffer (on_events [''load'']) eligible_before) \<and>
   added eligible_before (snd (is_enabled scratch_buffer (on_events [''load'']) eligible_before)) =
     [ShowDiff_clear, Settings_set ''git_gutter_enabled'' (PBool False)] \<and>
   base_is_enabled
     (view_settings (snd (is_enabled scratch_buffer (on_events [''load'']) eligible_before))) =
     PBool False"
  using scratch_ineligible [of scratch_buffer "on_events [''load'']" eligible_before
      "fst (is_enabled scratch_buffer (on_events [''load'']) eligible_before)"
      "snd (is_enabled scratch_buffer (on_events [''load'']) eligible_before)"]
  by (simp add: sample_defs model_defs)

subsection \<open>The mirrored setting and the cache\<close>

text \<open>One evaluation keeps the mirrored setting and the cache equal.\<close>

lemma mirror_step:
  assumes "is_enabled env kw s = (valid, s')"
    and "base_is_enabled (view_settings s) = PBool (enabled s)"
  shows "base_is_enabled (view_settings s') = PBool (enabled s')"
proof (cases "valid_of env kw s = enabled s")
  case True
  from is_enabled_unchanged [OF True] assms show ?thesis by auto
next
  case False
  from is_enabled_changed [OF False] assms(1) show ?thesis
    by (auto simp: base_is_enabled_def settings_get_default_def settings_set_def)
qed

lemma mirror_evaluations:
  assumes "evaluations s steps = (valids, s')"
    and "base_is_enabled (view_settings s) = PBool (enabled s)"
  shows "base_is_enabled (view_settings s') = PBool (enabled s')"
  using assms
proof (induction steps arbitrary: s valids)
  case Nil
  then show ?case by simp
next
  case (Cons step steps)
  obtain env kw where step: "step = (env, kw)" by (cases step)
  obtain valid s_next where one: "is_enabled env kw s = (valid, s_next)"
    by (cases "is_enabled env kw s")
  obtain rest where "evaluations s_next steps = (rest, s')"
    using Cons.prems(1) step one by (auto split: prod.splits)
  moreover have "base_is_enabled (view_settings s_next) = PBool (enabled s_next)"
    using mirror_step [OF one Cons.prems(2)] .
  ultimately show ?case by (rule Cons.IH)
qed

text \<open>
  Claim C7, as stated, holds of every sequence of evaluations on a new command object.
  On a view that still holds a true flag, a new command object evaluates a read-only
  file to false and writes nothing: the mirrored setting reads true, the cache is false.
\<close>

theorem mirror_not_cache:
  "snd (evaluations (init 1 stale_settings) [(read_only_file, on_events [''activated''])]) =
     init 1 stale_settings \<and>
   base_is_enabled (view_settings
     (snd (evaluations (init 1 stale_settings) [(read_only_file, on_events [''activated''])]))) =
     PBool True \<and>
   enabled (snd (evaluations (init 1 stale_settings)
     [(read_only_file, on_events [''activated''])])) = False"
  by (simp add: sample_defs model_defs)

text \<open>
  Claim C7, amended. On a new command object whose view's mirrored setting reads false
  (unset, or false), the mirrored setting, read with default false, equals the cache
  after every evaluation of every sequence of gate evaluations: after the first \<open>n\<close>
  evaluations, for every \<open>n\<close>.
\<close>

theorem mirror_equals_cache:
  assumes "base_is_enabled st = PBool False"
    and "evaluations (init view_id st) (take n steps) = (valids, s)"
  shows "base_is_enabled (view_settings s) = PBool (enabled s)"
  using assms(2)
proof (rule mirror_evaluations)
  show "base_is_enabled (view_settings (init view_id st)) = PBool (enabled (init view_id st))"
    using assms(1) by (simp add: init_def)
qed

theorem mirror_equals_cache_witness:
  "base_is_enabled no_settings = PBool False \<and>
   fst (evaluations (init 1 no_settings)
     (take 2 [(tracked_file, on_events [''load'']), (scratch_buffer, on_events [''modified'']),
              (tracked_file, on_events [''activated''])])) = [True, False] \<and>
   base_is_enabled (view_settings (snd (evaluations (init 1 no_settings)
     (take 2 [(tracked_file, on_events [''load'']), (scratch_buffer, on_events [''modified'']),
              (tracked_file, on_events [''activated''])])))) =
   PBool (enabled (snd (evaluations (init 1 no_settings)
     (take 2 [(tracked_file, on_events [''load'']), (scratch_buffer, on_events [''modified'']),
              (tracked_file, on_events [''activated''])]))))"
proof -
  have unset: "base_is_enabled no_settings = PBool False"
    by (simp add: sample_defs model_defs)
  have run: "evaluations (init 1 no_settings)
     (take 2 [(tracked_file, on_events [''load'']), (scratch_buffer, on_events [''modified'']),
              (tracked_file, on_events [''activated''])]) =
     ([True, False],
      snd (evaluations (init 1 no_settings)
        (take 2 [(tracked_file, on_events [''load'']), (scratch_buffer, on_events [''modified'']),
                 (tracked_file, on_events [''activated''])])))"
    by (simp add: sample_defs model_defs)
  have valids: "fst (evaluations (init 1 no_settings)
     (take 2 [(tracked_file, on_events [''load'']), (scratch_buffer, on_events [''modified'']),
              (tracked_file, on_events [''activated''])])) = [True, False]"
    by (simp add: sample_defs model_defs)
  from unset valids mirror_equals_cache [OF unset run] show ?thesis
    by blast
qed

subsection \<open>The gate and the router\<close>

text \<open>What \<^verbatim>\<open>run\<close> and its two handlers change: the trace, by handler calls only.\<close>

lemma handle_event_result:
  "handle_event kw s = Inr s' \<Longrightarrow>
     enabled s' = enabled s \<and> view_settings s' = view_settings s \<and>
     git_handler s' = git_handler s \<and> trace s' = trace s @ added s s' \<and>
     added s s' \<noteq> [] \<and> (\<forall>x \<in> set (added s s'). \<not> gate_effect x)"
  unfolding handle_event_def emit_def added_def Let_def
  by (auto split: if_splits)

lemma handle_event_error: "handle_event kw s \<noteq> Inl (e, s')"
  by (simp add: handle_event_def Let_def)

lemma handle_subcommand_result:
  "handle_subcommand kw s = Inr s' \<Longrightarrow>
     enabled s' = enabled s \<and> view_settings s' = view_settings s \<and>
     git_handler s' = git_handler s \<and> trace s' = trace s @ added s s' \<and>
     added s s' \<noteq> [] \<and> (\<forall>x \<in> set (added s s'). \<not> gate_effect x)"
  unfolding handle_subcommand_def subscript_def emit_def added_def
  by (auto split: option.splits if_splits)

lemma handle_subcommand_error:
  "handle_subcommand kw s = Inl (e, s') \<Longrightarrow> s' = s"
  unfolding handle_subcommand_def subscript_def emit_def
  by (simp split: option.splits if_splits)


lemma run_result:
  "run kw s = Inr s' \<Longrightarrow>
     enabled s' = enabled s \<and> view_settings s' = view_settings s \<and>
     git_handler s' = git_handler s \<and> trace s' = trace s @ added s s' \<and>
     added s s' \<noteq> [] \<and> (\<forall>x \<in> set (added s s'). \<not> gate_effect x)"
  using handle_event_result [of kw s s'] handle_subcommand_result [of kw s s']
  by (simp add: run_def split: if_splits)

lemma run_error: "run kw s = Inl (e, s') \<Longrightarrow> s' = s"
  using handle_event_error [of kw s e s'] handle_subcommand_error [of kw s e s']
  by (simp add: run_def split: if_splits)

lemma is_enabled_trace:
  assumes "is_enabled env kw s = (valid, s')"
  shows "trace s' = trace s @ added s s' \<and> (\<forall>x \<in> set (added s s'). gate_effect x) \<and>
     enabled s' = valid"
proof (cases "valid_of env kw s = enabled s")
  case True
  from is_enabled_unchanged [OF True] assms show ?thesis
    using query_of_cases [of env kw s] by auto
next
  case False
  from is_enabled_changed [OF False] assms show ?thesis
    using query_of_cases [of env kw s] by auto
qed

text \<open>
  Claim C8. In every invocation of the command the gate is evaluated before anything is
  dispatched: the calls of the invocation are those of the gate evaluation (work-tree
  query, \<^verbatim>\<open>clear()\<close>, write of the setting) followed by the handler calls, the handler
  calls start from the object as the gate evaluation left it, and the cache holds the
  value that this evaluation returned. No handler is called when the gate returns false.
  This holds whether the dispatch returns or raises.
\<close>

theorem gate_before_dispatch:
  assumes "is_enabled env kw s = (valid, s_gate)"
    and "invoke env kw s = Inr s' \<or> invoke env kw s = Inl (e, s')"
  shows "trace s_gate = trace s @ added s s_gate \<and>
     (\<forall>x \<in> set (added s s_gate). gate_effect x) \<and>
     enabled s_gate = valid \<and>
     trace s' = trace s_gate @ added s_gate s' \<and>
     (\<forall>x \<in> set (added s_gate s'). \<not> gate_effect x) \<and>
     trace s' = trace s @ added s s_gate @ added s_gate s' \<and>
     enabled s' = valid \<and> view_settings s' = view_settings s_gate \<and>
     (\<not> valid \<longrightarrow> s' = s_gate) \<and>
     (valid \<and> invoke env kw s = Inr s' \<longrightarrow> added s_gate s' \<noteq> [])"
proof -
  note gate = is_enabled_trace [OF assms(1)]
  show ?thesis
  proof (cases valid)
    case False
    with assms have "s' = s_gate"
      by (simp add: invoke_def)
    with gate False show ?thesis
      by (simp add: added_def)
  next
    case True
    with assms have "run kw s_gate = Inr s' \<or> run kw s_gate = Inl (e, s')"
      by (simp add: invoke_def)
    then show ?thesis
    proof
      assume dispatch: "run kw s_gate = Inr s'"
      from run_result [OF dispatch] gate True show ?thesis
        by simp
    next
      assume raise: "run kw s_gate = Inl (e, s')"
      have "invoke env kw s \<noteq> Inr s'"
        using assms(1) True raise by (simp add: invoke_def)
      with run_error [OF raise] gate True show ?thesis
        by (simp add: added_def)
    qed
  qed
qed

theorem gate_before_dispatch_witness:
  "invoke tracked_file (on_events [''post-save'']) (init 1 no_settings) =
     Inr ((snd (is_enabled tracked_file (on_events [''post-save'']) (init 1 no_settings)))
       \<lparr>trace := [Work_tree True, Settings_set ''git_gutter_enabled'' (PBool True),
                  Invalidate_git_file, ShowDiff_run]\<rparr>) \<and>
   added (init 1 no_settings)
     (snd (is_enabled tracked_file (on_events [''post-save'']) (init 1 no_settings))) =
     [Work_tree True, Settings_set ''git_gutter_enabled'' (PBool True)] \<and>
   fst (is_enabled tracked_file (on_events [''post-save'']) (init 1 no_settings)) \<and>
   invoke scratch_buffer (on_events [''modified'']) eligible_before =
     Inr (snd (is_enabled scratch_buffer (on_events [''modified'']) eligible_before)) \<and>
   added eligible_before
     (snd (is_enabled scratch_buffer (on_events [''modified'']) eligible_before)) =
     [ShowDiff_clear, Settings_set ''git_gutter_enabled'' (PBool False)]"
  using gate_before_dispatch [where env = scratch_buffer and kw = "on_events [''modified'']"
      and s = eligible_before
      and valid = "fst (is_enabled scratch_buffer (on_events [''modified'']) eligible_before)"
      and s_gate = "snd (is_enabled scratch_buffer (on_events [''modified'']) eligible_before)"
      and s' = "snd (is_enabled scratch_buffer (on_events [''modified'']) eligible_before)"]
    gate_before_dispatch [where env = tracked_file and kw = "on_events [''post-save'']"
      and s = "init 1 no_settings"
      and valid = "fst (is_enabled tracked_file (on_events [''post-save'']) (init 1 no_settings))"
      and s_gate = "snd (is_enabled tracked_file (on_events [''post-save'']) (init 1 no_settings))"
      and s' = "(snd (is_enabled tracked_file (on_events [''post-save''])
          (init 1 no_settings)))
       \<lparr>trace := [Work_tree True, Settings_set ''git_gutter_enabled'' (PBool True),
                  Invalidate_git_file, ShowDiff_run]\<rparr>"]
  by (simp add: invoke_def sample_defs model_defs)

subsection \<open>A new command object\<close>

text \<open>
  As long as every evaluation computes false on an object whose cache is false, only
  work-tree queries are added to the trace.
\<close>

lemma quiet_evaluations:
  assumes "evaluations s steps = (valids, s')" and "\<forall>v \<in> set valids. \<not> v" and "\<not> enabled s"
  shows "\<exists>new. s' = s\<lparr>trace := trace s @ new\<rparr> \<and>
           (\<forall>x \<in> set new. \<exists>validate. x = Work_tree validate)"
  using assms
proof (induction steps arbitrary: s valids)
  case Nil
  then have "s' = s\<lparr>trace := trace s @ []\<rparr>" by simp
  then show ?case by fastforce
next
  case (Cons step steps)
  obtain env kw where step: "step = (env, kw)" by (cases step)
  obtain valid s_next where one: "is_enabled env kw s = (valid, s_next)"
    by (cases "is_enabled env kw s")
  obtain rest where rest: "evaluations s_next steps = (rest, s')" and valids: "valids = valid # rest"
    using Cons.prems(1) step one by (auto split: prod.splits)
  from valids Cons.prems(2) have "\<not> valid" and all_rest: "\<forall>v \<in> set rest. \<not> v"
    by auto
  with one fst_is_enabled [of env kw s] Cons.prems(3) have "valid_of env kw s = enabled s"
    by simp
  from is_enabled_unchanged [OF this] one
  have next_state: "s_next = s\<lparr>trace := trace s @ query_of env kw s\<rparr>"
    by simp
  then have "\<not> enabled s_next"
    using Cons.prems(3) by simp
  from Cons.IH [OF rest all_rest this]
  obtain new where new: "s' = s_next\<lparr>trace := trace s_next @ new\<rparr>"
    and queries: "\<forall>x \<in> set new. \<exists>validate. x = Work_tree validate"
    by blast
  have "s' = s\<lparr>trace := trace s @ (query_of env kw s @ new)\<rparr>"
    using new next_state by simp
  moreover have "\<forall>x \<in> set (query_of env kw s @ new). \<exists>validate. x = Work_tree validate"
    using queries query_of_cases [of env kw s] by auto
  ultimately show ?case by blast
qed

text \<open>
  Claim C10. The cache of a new command object is false. Hence after any sequence of
  gate evaluations that all compute false, the cache is still false, the view's settings
  are as they were, and \<^verbatim>\<open>clear()\<close> has never been called nor any setting written; and
  an evaluation that then computes true performs the transition: it writes true to the
  mirrored setting and to the cache, after the work-tree query and without \<^verbatim>\<open>clear()\<close>.
\<close>

theorem fresh_router_quiet:
  "enabled (init view_id st) = False \<and>
   (evaluations (init view_id st) steps = (valids, s) \<and> (\<forall>v \<in> set valids. \<not> v) \<longrightarrow>
      enabled s = False \<and> view_settings s = st \<and>
      ShowDiff_clear \<notin> set (trace s) \<and> (\<forall>key v. Settings_set key v \<notin> set (trace s)) \<and>
      (is_enabled env kw s = (True, s') \<longrightarrow>
         enabled s' = True \<and>
         view_settings s' = settings_set st ''git_gutter_enabled'' (PBool True) \<and>
         (\<exists>validate. added s s' =
            [Work_tree validate, Settings_set ''git_gutter_enabled'' (PBool True)]) \<and>
         trace s' = trace s @ added s s'))"
proof -
  have fresh: "enabled (init view_id st) = False"
    by (simp add: init_def)
  have quiet: "enabled s = False \<and> view_settings s = st \<and>
      ShowDiff_clear \<notin> set (trace s) \<and> (\<forall>key v. Settings_set key v \<notin> set (trace s)) \<and>
      (is_enabled env kw s = (True, s') \<longrightarrow>
         enabled s' = True \<and>
         view_settings s' = settings_set st ''git_gutter_enabled'' (PBool True) \<and>
         (\<exists>validate. added s s' =
            [Work_tree validate, Settings_set ''git_gutter_enabled'' (PBool True)]) \<and>
         trace s' = trace s @ added s s')"
    if run: "evaluations (init view_id st) steps = (valids, s)" and all: "\<forall>v \<in> set valids. \<not> v"
  proof -
    from quiet_evaluations [OF run all] fresh
    obtain new where s: "s = (init view_id st)\<lparr>trace := trace (init view_id st) @ new\<rparr>"
      and queries: "\<forall>x \<in> set new. \<exists>validate. x = Work_tree validate"
      by auto
    have off: "enabled s = False" and settings: "view_settings s = st" and trace: "trace s = new"
      using s by (simp_all add: init_def)
    have first_true: "enabled s' = True \<and>
         view_settings s' = settings_set st ''git_gutter_enabled'' (PBool True) \<and>
         (\<exists>validate. added s s' =
            [Work_tree validate, Settings_set ''git_gutter_enabled'' (PBool True)]) \<and>
         trace s' = trace s @ added s s'"
      if up: "is_enabled env kw s = (True, s')"
    proof -
      from up fst_is_enabled [of env kw s] have valid: "valid_of env kw s" by simp
      then have "query_of env kw s = [Work_tree (validate_of kw)]"
        by (simp add: valid_of_def query_of_def)
      moreover from valid off have "valid_of env kw s \<noteq> enabled s" by simp
      from is_enabled_changed [OF this] up off
      have "s' = s\<lparr>enabled := True,
          view_settings := settings_set (view_settings s) ''git_gutter_enabled'' (PBool True),
          trace := trace s @ query_of env kw s @
                   [Settings_set ''git_gutter_enabled'' (PBool True)]\<rparr>"
        by simp
      ultimately show ?thesis
        using settings by (auto simp: added_def)
    qed
    show ?thesis
      using off settings trace queries first_true by auto
  qed
  show ?thesis
    using fresh quiet by blast
qed


theorem fresh_router_quiet_witness:
  "snd (evaluations (init 1 stale_settings)
      [(scratch_buffer, on_events [''load'']), (untracked_file, on_events [''post-save''])]) =
     (init 1 stale_settings)\<lparr>trace := [Work_tree True]\<rparr> \<and>
   fst (evaluations (init 1 stale_settings)
      [(scratch_buffer, on_events [''load'']), (untracked_file, on_events [''post-save''])]) =
     [False, False] \<and>
   added ((init 1 stale_settings)\<lparr>trace := [Work_tree True]\<rparr>)
     (snd (is_enabled tracked_file (on_events [''modified''])
        ((init 1 stale_settings)\<lparr>trace := [Work_tree True]\<rparr>))) =
     [Work_tree False, Settings_set ''git_gutter_enabled'' (PBool True)]"
  using fresh_router_quiet [where view_id = 1 and st = stale_settings
      and steps = "[(scratch_buffer, on_events [''load'']),
                    (untracked_file, on_events [''post-save''])]"
      and valids = "[False, False]"
      and s = "(init 1 stale_settings)\<lparr>trace := [Work_tree True]\<rparr>"
      and env = tracked_file and kw = "on_events [''modified'']"
      and s' = "snd (is_enabled tracked_file (on_events [''modified''])
        ((init 1 stale_settings)\<lparr>trace := [Work_tree True]\<rparr>))"]
  by (simp add: sample_defs model_defs)

end
